theory Spec2Isabelle
  imports Complex_Main "HOL-Library.Word" "HOL-Library.Multiset" "HOL-Library.AList"
begin

unbundle bit_operations_syntax

section \<open>Atom model (atomspace/interface.go)\<close>

text \<open>
  Conventions of the embedding.
  \<^item> Go's \<open>float64\<close> truth values are modelled as \<open>real\<close>: products are exact. No
    claim below depends on rounding: the constants that occur (1.0, 0.9, 0.7, 0.8) and the
    products \<open>1.0 * x\<close> are the same in both arithmetics.
  \<^item> \<open>int16\<close> is \<open>16 word\<close>, read with \<open>sint\<close>; \<open>+\<close> wraps as in Go.
  \<^item> An \<open>Atom\<close> interface value is a pointer to a \<open>Node\<close> or a \<open>Link\<close>. The
    identifying fields (ID, Type, TenantID) are never assigned after construction by the
    code under study, and \<open>Outgoing\<close> atoms are only read for their ID, so a link embeds its
    outgoing atoms by value. The one place where an object is shared and mutated, the
    stored atom itself, is kept once, in the primary map \<open>atoms\<close> of its shard; the
    secondary indices hold its key in place of the pointer.
  \<^item> Wall-clock fields (\<open>CreatedAt\<close>, \<open>UpdatedAt\<close>, \<open>LastUsed\<close>), locks and channels
    are left out: every operation is modelled as the atomic step its lock makes it.
  \<^item> A Go map is an association list in insertion order. Where the code ranges over a
    map, Go leaves the order unspecified; the functions concerned take the order as a
    parameter (a function that permutes the canonical enumeration).
\<close>

datatype AtomType =
    NodeType | ConceptNodeType | PredicateNodeType | VariableNodeType
  | LinkType | InheritanceLinkType | SimilarityLinkType | ExecutionLinkType
  | EvaluationLinkType

text \<open>The \<open>iota\<close> value of an atom type, as \<open>%d\<close> prints it (a single digit).\<close>

fun AtomType_code :: "AtomType \<Rightarrow> char" where
  "AtomType_code NodeType = CHR ''0''"
| "AtomType_code ConceptNodeType = CHR ''1''"
| "AtomType_code PredicateNodeType = CHR ''2''"
| "AtomType_code VariableNodeType = CHR ''3''"
| "AtomType_code LinkType = CHR ''4''"
| "AtomType_code InheritanceLinkType = CHR ''5''"
| "AtomType_code SimilarityLinkType = CHR ''6''"
| "AtomType_code ExecutionLinkType = CHR ''7''"
| "AtomType_code EvaluationLinkType = CHR ''8''"

record TruthValue =
  Strength :: real
  Confidence :: real

record AttentionValue =
  STI :: "16 word"
  LTI :: "16 word"
  VLTI :: "16 word"

record BaseAtom =
  ID :: string
  Type :: AtomType
  Name :: string
  TruthVal :: TruthValue
  AttentionVal :: AttentionValue
  TenantID :: string

datatype Atom = Node BaseAtom | Link BaseAtom "Atom list"

fun base :: "Atom \<Rightarrow> BaseAtom" where
  "base (Node b) = b"
| "base (Link b outgoing) = b"

fun map_base :: "(BaseAtom \<Rightarrow> BaseAtom) \<Rightarrow> Atom \<Rightarrow> Atom" where
  "map_base f (Node b) = Node (f b)"
| "map_base f (Link b outgoing) = Link (f b) outgoing"

fun is_Link :: "Atom \<Rightarrow> bool" where
  "is_Link (Node b) = False"
| "is_Link (Link b outgoing) = True"

text \<open>\<open>Link.Outgoing\<close>; it is only read after a successful assertion to \<open>*Link\<close>.\<close>

fun Outgoing :: "Atom \<Rightarrow> Atom list" where
  "Outgoing (Node b) = []"
| "Outgoing (Link b outgoing) = outgoing"

definition GetID :: "Atom \<Rightarrow> string" where
  "GetID a = ID (base a)"

definition GetType :: "Atom \<Rightarrow> AtomType" where
  "GetType a = Type (base a)"

definition GetName :: "Atom \<Rightarrow> string" where
  "GetName a = Name (base a)"

definition GetTenantID :: "Atom \<Rightarrow> string" where
  "GetTenantID a = TenantID (base a)"

definition GetTruthValue :: "Atom \<Rightarrow> TruthValue" where
  "GetTruthValue a = TruthVal (base a)"

definition SetTruthValue :: "TruthValue \<Rightarrow> Atom \<Rightarrow> Atom" where
  "SetTruthValue tv a = map_base (\<lambda>b. b\<lparr>TruthVal := tv\<rparr>) a"


definition SetAttentionValue :: "AttentionValue \<Rightarrow> Atom \<Rightarrow> Atom" where
  "SetAttentionValue av a = map_base (\<lambda>b. b\<lparr>AttentionVal := av\<rparr>) a"

definition NewBase :: "string \<Rightarrow> string \<Rightarrow> string \<Rightarrow> AtomType \<Rightarrow> BaseAtom" where
  "NewBase aid name tenantID atomType =
     \<lparr>ID = aid, Type = atomType, Name = name,
      TruthVal = \<lparr>Strength = 1.0, Confidence = 1.0\<rparr>,
      AttentionVal = \<lparr>STI = 0, LTI = 0, VLTI = 0\<rparr>,
      TenantID = tenantID\<rparr>"

definition NewNode :: "string \<Rightarrow> string \<Rightarrow> string \<Rightarrow> AtomType \<Rightarrow> Atom" where
  "NewNode aid name tenantID atomType = Node (NewBase aid name tenantID atomType)"

definition NewLink :: "string \<Rightarrow> string \<Rightarrow> string \<Rightarrow> AtomType \<Rightarrow> Atom list \<Rightarrow> Atom" where
  "NewLink aid name tenantID atomType outgoing =
     Link (NewBase aid name tenantID atomType) outgoing"

text \<open>
  \<open>GenerateAtomID\<close> hashes \<open>"%d:%s"\<close> of type and name followed by the outgoing ids.
  \<open>crypto/sha256\<close> with its hex rendering is the parameter \<open>sha\<close>; writing to the hash
  piecewise hashes the concatenation.
\<close>

definition GenerateAtomID ::
  "(string \<Rightarrow> string) \<Rightarrow> AtomType \<Rightarrow> string \<Rightarrow> Atom list \<Rightarrow> string" where
  "GenerateAtomID sha atomType name outgoing =
     sha (AtomType_code atomType # CHR '':'' # name @ concat (map GetID outgoing))"

section \<open>Errors\<close>

text \<open>
  The Go code returns \<open>fmt.Errorf\<close> strings; the model keeps the kind and the formatted
  argument. \<open>UpdaterError\<close> is whatever a caller's mutator returned, \<open>Wrapped\<close> is
  \<open>%w\<close> wrapping with its prefix, \<open>Cancelled\<close> is \<open>ctx.Err()\<close>.
\<close>

datatype error =
    AlreadyExists string
  | NotFound string
  | TenantMismatch string
  | UpdaterError string
  | Wrapped string error
  | Cancelled

section \<open>AtomSpace, one shard (atomspace/atomspace.go)\<close>

record AtomSpace =
  atoms :: "(string \<times> Atom) list"
  byTenant :: "(string \<times> string list) list"
  byType :: "(AtomType \<times> string list) list"
  indices :: "(string \<times> string list) list"

definition NewAtomSpace :: AtomSpace where
  "NewAtomSpace = \<lparr>atoms = [], byTenant = [], byType = [], indices = []\<rparr>"

text \<open>
  \<open>m[k][id] = v\<close> on a map of maps, creating the inner map when it is nil. The inner
  map is its key list.
\<close>

definition index_add :: "'k \<Rightarrow> string \<Rightarrow> ('k \<times> string list) list \<Rightarrow> ('k \<times> string list) list" where
  "index_add k atomID m =
     (case map_of m k of
        None \<Rightarrow> AList.update k [atomID] m
      | Some ids \<Rightarrow> AList.update k (if atomID \<in> set ids then ids else ids @ [atomID]) m)"

definition addAtomInternal :: "Atom \<Rightarrow> AtomSpace \<Rightarrow> error option \<times> AtomSpace" where
  "addAtomInternal atom as =
     (let atomID = GetID atom; tenantID = GetTenantID atom; atomType = GetType atom in
      if map_of (atoms as) atomID \<noteq> None then (Some (AlreadyExists atomID), as)
      else (None,
            as\<lparr>atoms := AList.update atomID atom (atoms as),
               byTenant := index_add tenantID atomID (byTenant as),
               byType := index_add atomType atomID (byType as),
               indices := index_add (GetName atom) atomID (indices as)\<rparr>))"

definition AtomSpace_GetAtom :: "string \<Rightarrow> string \<Rightarrow> AtomSpace \<Rightarrow> error + Atom" where
  "AtomSpace_GetAtom atomID tenantID as =
     (case map_of (atoms as) atomID of
        None \<Rightarrow> Inl (NotFound atomID)
      | Some atom \<Rightarrow>
          if GetTenantID atom \<noteq> tenantID then Inl (TenantMismatch tenantID)
          else Inr atom)"

text \<open>
  \<open>queryAtomsInternal\<close> ranges over \<open>byTenant[tenantID]\<close>; a nil filter accepts every
  atom. The result is listed in insertion order here.
\<close>

definition queryAtomsInternal ::
  "string \<Rightarrow> (Atom \<Rightarrow> bool) option \<Rightarrow> AtomSpace \<Rightarrow> Atom list" where
  "queryAtomsInternal tenantID flt as =
     (let tenantAtoms = (case map_of (byTenant as) tenantID of None \<Rightarrow> [] | Some ids \<Rightarrow> ids)
      in concat (map (\<lambda>atomID.
           case map_of (atoms as) atomID of
             None \<Rightarrow> []
           | Some atom \<Rightarrow>
               (case flt of
                  None \<Rightarrow> [atom]
                | Some f \<Rightarrow> if f atom then [atom] else [])) tenantAtoms))"

text \<open>
  A mutator \<open>func(Atom) error\<close> is handed the stored object and may change it before it
  returns: it is a function from the object to its error message, if any, and the object
  as it leaves it. What it did to the object stays, also when it reports an error.
\<close>

type_synonym updater = "Atom \<Rightarrow> string option \<times> Atom"

definition updateAtomInternal ::
  "string \<Rightarrow> string \<Rightarrow> updater \<Rightarrow> AtomSpace \<Rightarrow> error option \<times> AtomSpace" where
  "updateAtomInternal atomID tenantID upd as =
     (case map_of (atoms as) atomID of
        None \<Rightarrow> (Some (NotFound atomID), as)
      | Some atom \<Rightarrow>
          if GetTenantID atom \<noteq> tenantID then (Some (TenantMismatch tenantID), as)
          else (case upd atom of
                  (err, atom') \<Rightarrow>
                    (map_option UpdaterError err,
                     as\<lparr>atoms := AList.update atomID atom' (atoms as)\<rparr>)))"

section \<open>Shard manager (sharding/sharding.go)\<close>

text \<open>\<open>hash/fnv\<close>'s 64-bit FNV-1a over the bytes of a string.\<close>

definition fnv1a64 :: "string \<Rightarrow> 64 word" where
  "fnv1a64 s = foldl (\<lambda>h c. (h XOR of_char c) * 1099511628211) 14695981039346656037 s"

record Shard =
  ShardID :: nat
  Space :: AtomSpace
  Load :: int

record ShardManager =
  shards :: "Shard list"
  numShards :: nat

definition NewShardManager :: "nat \<Rightarrow> ShardManager" where
  "NewShardManager n =
     \<lparr>shards = map (\<lambda>i. \<lparr>ShardID = i, Space = NewAtomSpace, Load = 0\<rparr>) [0..<n],
      numShards = n\<rparr>"

text \<open>
  \<open>hash % uint64(sm.numShards)\<close>. With no shards the Go code stops with a division by
  zero; the results below are stated for \<open>0 < numShards\<close>.
\<close>

definition getShardIDInternal :: "nat \<Rightarrow> string \<Rightarrow> string \<Rightarrow> nat" where
  "getShardIDInternal n atomID tenantID =
     unat (fnv1a64 (tenantID @ '':'' @ atomID) mod of_nat n)"

definition GetShard :: "string \<Rightarrow> string \<Rightarrow> ShardManager \<Rightarrow> Shard" where
  "GetShard atomID tenantID sm =
     shards sm ! getShardIDInternal (numShards sm) atomID tenantID"

definition ShardManager_AddAtom :: "Atom \<Rightarrow> ShardManager \<Rightarrow> error option \<times> ShardManager" where
  "ShardManager_AddAtom atom sm =
     (let k = getShardIDInternal (numShards sm) (GetID atom) (GetTenantID atom);
          shard = shards sm ! k
      in case addAtomInternal atom (Space shard) of
           (err, as') \<Rightarrow>
             (err, sm\<lparr>shards := (shards sm)
                    [k := shard\<lparr>Space := as',
                               Load := (if err = None then Load shard + 1 else Load shard)\<rparr>]\<rparr>))"

definition ShardManager_GetAtom :: "string \<Rightarrow> string \<Rightarrow> ShardManager \<Rightarrow> error + Atom" where
  "ShardManager_GetAtom atomID tenantID sm =
     AtomSpace_GetAtom atomID tenantID (Space (GetShard atomID tenantID sm))"

text \<open>
  The cross-shard query concatenates the shards' answers as they arrive; listed by shard
  index here.
\<close>

definition ShardManager_QueryAtoms ::
  "string \<Rightarrow> (Atom \<Rightarrow> bool) option \<Rightarrow> ShardManager \<Rightarrow> Atom list" where
  "ShardManager_QueryAtoms tenantID flt sm =
     concat (map (\<lambda>shard. queryAtomsInternal tenantID flt (Space shard)) (shards sm))"

definition ShardManager_UpdateAtom ::
  "string \<Rightarrow> string \<Rightarrow> updater \<Rightarrow> ShardManager \<Rightarrow> error option \<times> ShardManager" where
  "ShardManager_UpdateAtom atomID tenantID upd sm =
     (let k = getShardIDInternal (numShards sm) atomID tenantID;
          shard = shards sm ! k
      in case updateAtomInternal atomID tenantID upd (Space shard) of
           (err, as') \<Rightarrow> (err, sm\<lparr>shards := (shards sm)[k := shard\<lparr>Space := as'\<rparr>]\<rparr>))"

section \<open>Inference engine (package inference)\<close>

text \<open>
  An \<open>InferenceRule\<close> is an interface value: its four methods. \<open>Apply\<close> may fail.
\<close>

record InferenceRule =
  RuleName :: string
  RulePriority :: int
  CanApply :: "Atom list \<Rightarrow> bool"
  Apply :: "Atom list \<Rightarrow> error + Atom list"

text \<open>
  The first loop of both \<open>Apply\<close> methods: atoms of type InheritanceLink that are
  \<open>*Link\<close> objects, in snapshot order.
\<close>

definition inheritanceLinks :: "Atom list \<Rightarrow> Atom list" where
  "inheritanceLinks snapshot =
     filter (\<lambda>atom. GetType atom = InheritanceLinkType \<and> is_Link atom) snapshot"

subsection \<open>DeductionRule\<close>

definition DeductionRule_CanApply :: "Atom list \<Rightarrow> bool" where
  "DeductionRule_CanApply snapshot =
     (list_ex (\<lambda>atom. GetType atom = InheritanceLinkType) snapshot \<and> 2 \<le> length snapshot)"

text \<open>The body of the innermost \<open>if\<close>: the link built from a matching pair.\<close>

definition deduce :: "(string \<Rightarrow> string) \<Rightarrow> Atom \<Rightarrow> Atom \<Rightarrow> Atom" where
  "deduce sha link1 link2 =
     (let tenantID = GetTenantID link1;
          newOutgoing = [Outgoing link1 ! 0, Outgoing link2 ! 1];
          newID = GenerateAtomID sha InheritanceLinkType ''inheritance'' newOutgoing;
          newLink = NewLink newID ''inheritance'' tenantID InheritanceLinkType newOutgoing;
          tv1 = GetTruthValue link1;
          tv2 = GetTruthValue link2;
          newTV = \<lparr>Strength = Strength tv1 * Strength tv2,
                   Confidence = Confidence tv1 * Confidence tv2 * 0.9\<rparr>
      in SetTruthValue newTV newLink)"

definition DeductionRule_Apply :: "(string \<Rightarrow> string) \<Rightarrow> Atom list \<Rightarrow> Atom list" where
  "DeductionRule_Apply sha snapshot =
     (let links = inheritanceLinks snapshot in
      concat (map (\<lambda>(i, link1).
        if length (Outgoing link1) \<noteq> 2 then []
        else concat (map (\<lambda>(j, link2).
          if i = j \<or> length (Outgoing link2) \<noteq> 2 then []
          else if GetID (Outgoing link1 ! 1) = GetID (Outgoing link2 ! 0)
               then [deduce sha link1 link2]
               else []) (enumerate 0 links))) (enumerate 0 links)))"

definition DeductionRule :: "(string \<Rightarrow> string) \<Rightarrow> InferenceRule" where
  "DeductionRule sha =
     \<lparr>RuleName = ''deduction'', RulePriority = 10,
      CanApply = DeductionRule_CanApply,
      Apply = (\<lambda>snapshot. Inr (DeductionRule_Apply sha snapshot))\<rparr>"

subsection \<open>InductionRule\<close>

definition InductionRule_CanApply :: "Atom list \<Rightarrow> bool" where
  "InductionRule_CanApply snapshot =
     (3 \<le> length (filter (\<lambda>atom. GetType atom = InheritanceLinkType) snapshot))"

text \<open>
  \<open>targetGroups\<close>: links with two outgoing atoms, grouped by the id of the second. The
  code ranges over this map in an unspecified order; the groups are listed by first
  occurrence of their target here, which fixes the order of the emitted atoms only.
\<close>

definition targetGroups :: "Atom list \<Rightarrow> (string \<times> Atom list) list" where
  "targetGroups links =
     foldl (\<lambda>m link.
        if length (Outgoing link) = 2
        then (let targetID = GetID (Outgoing link ! 1)
              in AList.update targetID
                   ((case map_of m targetID of None \<Rightarrow> [] | Some g \<Rightarrow> g) @ [link]) m)
        else m) [] links"

definition similar :: "(string \<Rightarrow> string) \<Rightarrow> Atom \<Rightarrow> Atom \<Rightarrow> Atom" where
  "similar sha link1 link2 =
     (let source1 = Outgoing link1 ! 0;
          source2 = Outgoing link2 ! 0;
          tenantID = GetTenantID link1;
          newOutgoing = [source1, source2];
          newID = GenerateAtomID sha SimilarityLinkType ''similarity'' newOutgoing;
          newLink = NewLink newID ''similarity'' tenantID SimilarityLinkType newOutgoing;
          newTV = \<lparr>Strength = 0.7, Confidence = 0.8\<rparr>
      in SetTruthValue newTV newLink)"

definition group_pairs :: "(string \<Rightarrow> string) \<Rightarrow> Atom list \<Rightarrow> Atom list" where
  "group_pairs sha grp =
     concat (map (\<lambda>i. map (\<lambda>j. similar sha (grp ! i) (grp ! j)) [i + 1..<length grp])
                 [0..<length grp - 1])"

definition InductionRule_Apply :: "(string \<Rightarrow> string) \<Rightarrow> Atom list \<Rightarrow> Atom list" where
  "InductionRule_Apply sha snapshot =
     concat (map (\<lambda>(targetID, grp). if 2 \<le> length grp then group_pairs sha grp else [])
                 (targetGroups (inheritanceLinks snapshot)))"

definition InductionRule :: "(string \<Rightarrow> string) \<Rightarrow> InferenceRule" where
  "InductionRule sha =
     \<lparr>RuleName = ''induction'', RulePriority = 5,
      CanApply = InductionRule_CanApply,
      Apply = (\<lambda>snapshot. Inr (InductionRule_Apply sha snapshot))\<rparr>"

subsection \<open>AbductionRule\<close>

definition AbductionRule :: InferenceRule where
  "AbductionRule =
     \<lparr>RuleName = ''abduction'', RulePriority = 3,
      CanApply = (\<lambda>snapshot. 2 \<le> length snapshot),
      Apply = (\<lambda>snapshot. Inr [])\<rparr>"

subsection \<open>RunInference\<close>

text \<open>
  The engine reaches its store through \<open>AtomSpaceInterface\<close>; the value the facade
  passes is \<open>tenantAtomSpaceWrapper\<close>, which forwards every call to the shard manager,
  so the store is the shard manager here.

  Each applicable rule is sent to the worker pool and one result is received per task.
  The model assumes a live pool (every task is answered) and a single caller, and takes
  the results in dispatch order. \<open>order i\<close> is the order in which the query of
  iteration \<open>i\<close> lists the atoms, \<open>cancelled i\<close> says whether the context is done when
  iteration \<open>i\<close> starts.

  Besides what the Go function returns, the loop reports two ghost values: the number of
  loop bodies entered, and whether it left through the fixpoint test.
\<close>

record InferenceRun =
  run_atoms :: "Atom list"
  run_err :: "error option"
  run_store :: ShardManager
  run_iterations :: nat
  run_fixpoint :: bool

type_synonym reinsert_state = "ShardManager \<times> Atom list \<times> nat"

definition reinsert :: "reinsert_state \<Rightarrow> Atom \<Rightarrow> reinsert_state" where
  "reinsert st atom =
     (case st of (sm, allNewAtoms, newAtomsThisIteration) \<Rightarrow>
        (case ShardManager_AddAtom atom sm of
           (None, sm') \<Rightarrow> (sm', allNewAtoms @ [atom], newAtomsThisIteration + 1)
         | (Some e, sm') \<Rightarrow> (sm', allNewAtoms, newAtomsThisIteration)))"

definition collect :: "reinsert_state \<Rightarrow> error + Atom list \<Rightarrow> reinsert_state" where
  "collect st result =
     (case result of
        Inl e \<Rightarrow> st
      | Inr newAtoms \<Rightarrow> foldl reinsert st newAtoms)"

function RunInference_loop ::
  "(nat \<Rightarrow> Atom list \<Rightarrow> Atom list) \<Rightarrow> (nat \<Rightarrow> bool) \<Rightarrow> InferenceRule list \<Rightarrow> string \<Rightarrow> int
     \<Rightarrow> nat \<Rightarrow> ShardManager \<Rightarrow> Atom list \<Rightarrow> InferenceRun" where
  "RunInference_loop order cancelled rules tenantID maxIterations iteration sm allNewAtoms =
     (if \<not> int iteration < maxIterations
      then \<lparr>run_atoms = allNewAtoms, run_err = None, run_store = sm,
            run_iterations = iteration, run_fixpoint = False\<rparr>
      else if cancelled iteration
      then \<lparr>run_atoms = allNewAtoms, run_err = Some Cancelled, run_store = sm,
            run_iterations = iteration + 1, run_fixpoint = False\<rparr>
      else
        (let snapshot = order iteration (ShardManager_QueryAtoms tenantID None sm) in
         if length snapshot = 0
         then \<lparr>run_atoms = allNewAtoms, run_err = None, run_store = sm,
               run_iterations = iteration + 1, run_fixpoint = False\<rparr>
         else
           (let tasks = filter (\<lambda>rule. CanApply rule snapshot) rules in
            if length tasks = 0
            then \<lparr>run_atoms = allNewAtoms, run_err = None, run_store = sm,
                  run_iterations = iteration + 1, run_fixpoint = False\<rparr>
            else
              (case foldl collect (sm, allNewAtoms, 0) (map (\<lambda>rule. Apply rule snapshot) tasks) of
                 (sm', allNewAtoms', newAtomsThisIteration) \<Rightarrow>
                   if newAtomsThisIteration = 0
                   then \<lparr>run_atoms = allNewAtoms', run_err = None, run_store = sm',
                         run_iterations = iteration + 1, run_fixpoint = True\<rparr>
                   else RunInference_loop order cancelled rules tenantID maxIterations
                          (iteration + 1) sm' allNewAtoms'))))"
  by pat_completeness auto
termination
  by (relation "measure (\<lambda>(ord, cancelled, rules, tenantID, maxIterations, iteration, sm, acc).
         nat (maxIterations - int iteration))") auto

declare RunInference_loop.simps [simp del]

definition RunInference ::
  "(nat \<Rightarrow> Atom list \<Rightarrow> Atom list) \<Rightarrow> (nat \<Rightarrow> bool) \<Rightarrow> InferenceRule list \<Rightarrow> string \<Rightarrow> int
     \<Rightarrow> ShardManager \<Rightarrow> (Atom list \<times> error option) \<times> ShardManager" where
  "RunInference order cancelled rules tenantID maxIterations sm =
     (let r = RunInference_loop order cancelled rules tenantID maxIterations 0 sm []
      in ((run_atoms r, run_err r), run_store r))"

text \<open>
  For stating results about one pass of the loop: the results of the rules dispatched on
  a snapshot, and a pass that takes a snapshot, dispatches at least one rule and
  reinserts nothing.
\<close>

definition rule_results :: "InferenceRule list \<Rightarrow> Atom list \<Rightarrow> (error + Atom list) list" where
  "rule_results rules snapshot =
     map (\<lambda>rule. Apply rule snapshot) (filter (\<lambda>rule. CanApply rule snapshot) rules)"

definition quiet :: "InferenceRule list \<Rightarrow> Atom list \<Rightarrow> ShardManager \<Rightarrow> bool" where
  "quiet rules snapshot sm =
     (snapshot \<noteq> [] \<and> rule_results rules snapshot \<noteq> [] \<and>
      foldl collect (sm, [], 0) (rule_results rules snapshot) = (sm, [], 0))"

section \<open>Facade helpers (package cognitive)\<close>

text \<open>\<open>InitializeTenant\<close> gives each tenant's engine these rules, in this order.\<close>

definition default_rules :: "(string \<Rightarrow> string) \<Rightarrow> InferenceRule list" where
  "default_rules sha = [DeductionRule sha, InductionRule sha, AbductionRule]"

definition CreateConceptNode ::
  "(string \<Rightarrow> string) \<Rightarrow> string \<Rightarrow> string \<Rightarrow> ShardManager \<Rightarrow> (error + Atom) \<times> ShardManager" where
  "CreateConceptNode sha name tenantID sm =
     (let atomID = GenerateAtomID sha ConceptNodeType name [];
          node = NewNode atomID name tenantID ConceptNodeType
      in case ShardManager_AddAtom node sm of
           (Some e, sm') \<Rightarrow> (Inl e, sm')
         | (None, sm') \<Rightarrow> (Inr node, sm'))"

definition CreateInheritanceLink ::
  "(string \<Rightarrow> string) \<Rightarrow> string \<Rightarrow> string \<Rightarrow> string \<Rightarrow> ShardManager
     \<Rightarrow> (error + Atom) \<times> ShardManager" where
  "CreateInheritanceLink sha sourceID targetID tenantID sm =
     (case ShardManager_GetAtom sourceID tenantID sm of
        Inl e \<Rightarrow> (Inl (Wrapped ''source atom not found'' e), sm)
      | Inr source \<Rightarrow>
          (case ShardManager_GetAtom targetID tenantID sm of
             Inl e \<Rightarrow> (Inl (Wrapped ''target atom not found'' e), sm)
           | Inr target \<Rightarrow>
               (let outgoing = [source, target];
                    atomID = GenerateAtomID sha InheritanceLinkType ''inheritance'' outgoing;
                    link = NewLink atomID ''inheritance'' tenantID InheritanceLinkType outgoing
                in case ShardManager_AddAtom link sm of
                     (Some e, sm') \<Rightarrow> (Inl e, sm')
                   | (None, sm') \<Rightarrow> (Inr link, sm'))))"

section \<open>Agents (package agents)\<close>

subsection \<open>AttentionAgent.Run\<close>




text \<open>
  A method call through a pointer obtained from a query changes the stored object. The
  object lives in the shard its id and tenant route to, under its id.
\<close>

definition on_stored :: "(Atom \<Rightarrow> Atom) \<Rightarrow> string \<Rightarrow> AtomSpace \<Rightarrow> AtomSpace" where
  "on_stored f atomID as =
     as\<lparr>atoms := map (\<lambda>(key, obj). if key = atomID then (key, f obj) else (key, obj)) (atoms as)\<rparr>"



subsection \<open>AgentScheduler\<close>

text \<open>What the scheduler uses of an agent: its id, tenant and priority.\<close>

record Agent =
  AgentID :: string
  AgentName :: string
  AgentTenantID :: string
  Priority :: int

record AgentScheduler =
  agents :: "(string \<times> Agent) list"
  priority :: "Agent list"

definition NewAgentScheduler :: AgentScheduler where
  "NewAgentScheduler = \<lparr>agents = [], priority = []\<rparr>"

definition swap :: "nat \<Rightarrow> nat \<Rightarrow> 'a list \<Rightarrow> 'a list" where
  "swap i j xs = xs[i := xs ! j, j := xs ! i]"

text \<open>The two nested loops of \<open>rebuildPriorityQueue\<close>.\<close>

definition sort_inner :: "nat \<Rightarrow> Agent list \<Rightarrow> Agent list" where
  "sort_inner i p =
     foldl (\<lambda>p j. if Priority (p ! i) < Priority (p ! j) then swap i j p else p)
       p [i + 1..<length p]"

definition sort_priority :: "Agent list \<Rightarrow> Agent list" where
  "sort_priority p = foldl (\<lambda>p i. sort_inner i p) p [0..<length p]"

text \<open>
  \<open>rebuildPriorityQueue\<close> fills the slice by ranging over the map \<open>agents\<close>;
  \<open>order\<close> is the order this range happens to take.
\<close>

definition rebuildPriorityQueue :: "(Agent list \<Rightarrow> Agent list) \<Rightarrow> AgentScheduler \<Rightarrow> AgentScheduler" where
  "rebuildPriorityQueue order as = as\<lparr>priority := sort_priority (order (map snd (agents as)))\<rparr>"

definition registerInternal ::
  "(Agent list \<Rightarrow> Agent list) \<Rightarrow> Agent \<Rightarrow> AgentScheduler \<Rightarrow> AgentScheduler" where
  "registerInternal order agent as =
     rebuildPriorityQueue order (as\<lparr>agents := AList.update (AgentID agent) agent (agents as)\<rparr>)"

definition unregisterInternal ::
  "(Agent list \<Rightarrow> Agent list) \<Rightarrow> string \<Rightarrow> AgentScheduler \<Rightarrow> AgentScheduler" where
  "unregisterInternal order agentID as =
     rebuildPriorityQueue order (as\<lparr>agents := AList.delete agentID (agents as)\<rparr>)"

text \<open>
  \<open>scheduleAgents\<close> copies \<open>priority\<close> and submits the agents one after the other,
  waiting for each: the list of agents in the order they are dispatched.
\<close>

definition scheduleAgents :: "AgentScheduler \<Rightarrow> Agent list" where
  "scheduleAgents as = priority as"

definition agent_enumeration :: "(Agent list \<Rightarrow> Agent list) \<Rightarrow> bool" where
  "agent_enumeration order = (\<forall>xs. mset (order xs) = mset xs)"

definition in_map_order :: "Agent list \<Rightarrow> Agent list" where
  "in_map_order xs = xs"

text \<open>The management goroutine handles one request at a time.\<close>

datatype request = Register Agent | Unregister string

fun manage :: "AgentScheduler \<Rightarrow> ((Agent list \<Rightarrow> Agent list) \<times> request) list \<Rightarrow> AgentScheduler" where
  "manage as [] = as"
| "manage as ((order, Register agent) # rs) = manage (registerInternal order agent as) rs"
| "manage as ((order, Unregister agentID) # rs) = manage (unregisterInternal order agentID as) rs"

section \<open>Scenario data\<close>

text \<open>
  The SHA-256 digests (hex) of the eight contents that occur in the transitive-deduction
  scenario: the three concepts, the two given links, the link Cat\<rightarrow>Animal and the two
  similarity links between Cat and Mammal. \<open>sha256_demo\<close> is SHA-256 on these contents;
  no other content is hashed in the scenario.
\<close>

definition id_Cat :: string where
  "id_Cat = ''591cb98a778517d9c6aefd2b5213c71198e7b601bb2f011f90d9571271759b0d''"

definition id_Mammal :: string where
  "id_Mammal = ''50429b0398cb195f8efc24e636c5feb0602a418cebead0659e2becd44ae1f835''"

definition id_Animal :: string where
  "id_Animal = ''7183ac0af76453850eed3733742ade9eef40d021f9807b00c862435576a6483c''"

definition id_Cat_Mammal :: string where
  "id_Cat_Mammal = ''292a579e71647b3f5c8cb3407837e56941ee3e03d378e5159b7ca8b8a24086b7''"

definition id_Mammal_Animal :: string where
  "id_Mammal_Animal = ''8cf2df59a7889f69d90a0a7da85847d1bec9c752cadfe8a8e427df300ff4ad59''"

definition id_Cat_Animal :: string where
  "id_Cat_Animal = ''5469c4ffb252db45f490d3fb706e5ef32263bf43f8a1db3aafda9ef3147d5211''"

definition id_sim_Mammal_Cat :: string where
  "id_sim_Mammal_Cat = ''bf89bbc3dd45e7967cc0f549c96f52500e59094d80c4ff83cc77dca53541f12e''"

definition id_sim_Cat_Mammal :: string where
  "id_sim_Cat_Mammal = ''6161df9eed5df9d2f13768ad024dbbb29057dda37216eae08a6f4b5ae74de37b''"

definition sha256_demo :: "string \<Rightarrow> string" where
  "sha256_demo s =
     (case map_of
        [(''1:Cat'', id_Cat),
         (''1:Mammal'', id_Mammal),
         (''1:Animal'', id_Animal),
         (''5:inheritance'' @ id_Cat @ id_Mammal, id_Cat_Mammal),
         (''5:inheritance'' @ id_Mammal @ id_Animal, id_Mammal_Animal),
         (''5:inheritance'' @ id_Cat @ id_Animal, id_Cat_Animal),
         (''6:similarity'' @ id_Mammal @ id_Cat, id_sim_Mammal_Cat),
         (''6:similarity'' @ id_Cat @ id_Mammal, id_sim_Cat_Mammal)] s of
        None \<Rightarrow> []
      | Some h \<Rightarrow> h)"

text \<open>
  Tenant \<open>demo\<close> on the default eight shards: concepts Cat, Mammal, Animal, then the
  links Cat\<rightarrow>Mammal and Mammal\<rightarrow>Animal, created through the facade helpers.
\<close>

definition demo_setup :: "error + ShardManager" where
  "demo_setup =
     (case CreateConceptNode sha256_demo ''Cat'' ''demo'' (NewShardManager 8) of
        (Inl e, sm) \<Rightarrow> Inl e
      | (Inr cat, sm1) \<Rightarrow>
     (case CreateConceptNode sha256_demo ''Mammal'' ''demo'' sm1 of
        (Inl e, sm) \<Rightarrow> Inl e
      | (Inr mammal, sm2) \<Rightarrow>
     (case CreateConceptNode sha256_demo ''Animal'' ''demo'' sm2 of
        (Inl e, sm) \<Rightarrow> Inl e
      | (Inr animal, sm3) \<Rightarrow>
     (case CreateInheritanceLink sha256_demo (GetID cat) (GetID mammal) ''demo'' sm3 of
        (Inl e, sm) \<Rightarrow> Inl e
      | (Inr link1, sm4) \<Rightarrow>
     (case CreateInheritanceLink sha256_demo (GetID mammal) (GetID animal) ''demo'' sm4 of
        (Inl e, sm) \<Rightarrow> Inl e
      | (Inr link2, sm5) \<Rightarrow> Inr sm5)))))"

definition demo_store :: ShardManager where
  "demo_store = (case demo_setup of Inr sm \<Rightarrow> sm | Inl e \<Rightarrow> NewShardManager 8)"

text \<open>The atoms the scenario is about.\<close>

definition Cat :: Atom where
  "Cat = NewNode id_Cat ''Cat'' ''demo'' ConceptNodeType"

definition Mammal :: Atom where
  "Mammal = NewNode id_Mammal ''Mammal'' ''demo'' ConceptNodeType"

definition Animal :: Atom where
  "Animal = NewNode id_Animal ''Animal'' ''demo'' ConceptNodeType"



definition Cat_Animal :: Atom where
  "Cat_Animal =
     SetTruthValue \<lparr>Strength = 1.0, Confidence = 0.9\<rparr>
       (NewLink id_Cat_Animal ''inheritance'' ''demo'' InheritanceLinkType [Cat, Animal])"

definition sim_Mammal_Cat :: Atom where
  "sim_Mammal_Cat =
     SetTruthValue \<lparr>Strength = 0.7, Confidence = 0.8\<rparr>
       (NewLink id_sim_Mammal_Cat ''similarity'' ''demo'' SimilarityLinkType [Mammal, Cat])"

definition sim_Cat_Mammal :: Atom where
  "sim_Cat_Mammal =
     SetTruthValue \<lparr>Strength = 0.7, Confidence = 0.8\<rparr>
       (NewLink id_sim_Cat_Mammal ''similarity'' ''demo'' SimilarityLinkType [Cat, Mammal])"

text \<open>The enumeration that lists the shards by index and each shard in insertion order.\<close>

definition canonical :: "nat \<Rightarrow> Atom list \<Rightarrow> Atom list" where
  "canonical i xs = xs"

definition reversed :: "nat \<Rightarrow> Atom list \<Rightarrow> Atom list" where
  "reversed i xs = rev xs"

text \<open>What every enumeration order does: it lists the same atoms.\<close>

definition enumeration :: "(nat \<Rightarrow> Atom list \<Rightarrow> Atom list) \<Rightarrow> bool" where
  "enumeration order = (\<forall>i xs. mset (order i xs) = mset xs)"

definition never :: "nat \<Rightarrow> bool" where
  "never i = False"

definition always :: "nat \<Rightarrow> bool" where
  "always i = True"

text \<open>The scenario's store after further atoms have been added to it.\<close>

definition with_atoms :: "Atom list \<Rightarrow> ShardManager" where
  "with_atoms new = foldl (\<lambda>sm atom. snd (ShardManager_AddAtom atom sm)) demo_store new"

text \<open>The scenario's store with Cat\<rightarrow>Animal and the similarity link Mammal, Cat added.\<close>

definition demo_closed :: ShardManager where
  "demo_closed = with_atoms [Cat_Animal, sim_Mammal_Cat]"



text \<open>An atom is stored under a tenant: the shard of its id and that tenant holds it.\<close>

definition stored_under :: "ShardManager \<Rightarrow> Atom \<Rightarrow> string \<Rightarrow> bool" where
  "stored_under sm a t =
     (map_of (atoms (Space (GetShard (GetID a) t sm))) (GetID a) = Some a \<and> GetTenantID a = t)"

text \<open>One atom, the concept Cat of tenant \<open>a\<close>, added to an empty manager of eight shards.\<close>

definition tenant_a_store :: ShardManager where
  "tenant_a_store =
     snd (ShardManager_AddAtom (NewNode id_Cat ''Cat'' ''a'' ConceptNodeType) (NewShardManager 8))"

section \<open>Sequences of store operations\<close>

text \<open>
  The operations that put or change a truth value in one AtomSpace: \<open>AddAtom\<close>,
  \<open>UpdateAtom\<close>, and \<open>SetTruthValue\<close> called on a stored atom through its pointer.
\<close>

datatype store_op =
    OpAddAtom Atom
  | OpUpdateAtom string string updater
  | OpSetTruthValue string TruthValue

fun apply_op :: "AtomSpace \<Rightarrow> store_op \<Rightarrow> AtomSpace" where
  "apply_op as (OpAddAtom atom) = snd (addAtomInternal atom as)"
| "apply_op as (OpUpdateAtom atomID tenantID upd) = snd (updateAtomInternal atomID tenantID upd as)"
| "apply_op as (OpSetTruthValue atomID tv) = on_stored (SetTruthValue tv) atomID as"

definition apply_ops :: "AtomSpace \<Rightarrow> store_op list \<Rightarrow> AtomSpace" where
  "apply_ops as ops = foldl apply_op as ops"

definition in_range :: "TruthValue \<Rightarrow> bool" where
  "in_range tv =
     (0 \<le> Strength tv \<and> Strength tv \<le> 1 \<and> 0 \<le> Confidence tv \<and> Confidence tv \<le> 1)"

definition all_in_range :: "AtomSpace \<Rightarrow> bool" where
  "all_in_range as = list_all (\<lambda>(key, atom). in_range (GetTruthValue atom)) (atoms as)"

text \<open>The caller of an operation supplies truth values in range only.\<close>

fun supplies_in_range :: "store_op \<Rightarrow> bool" where
  "supplies_in_range (OpAddAtom atom) = in_range (GetTruthValue atom)"
| "supplies_in_range (OpUpdateAtom atomID tenantID upd) =
     (\<forall>atom. in_range (GetTruthValue atom) \<longrightarrow> in_range (GetTruthValue (snd (upd atom))))"
| "supplies_in_range (OpSetTruthValue atomID tv) = in_range tv"



section \<open>The deduction rule in the words of the specification\<close>





section \<open>Scheduler scenario\<close>

text \<open>Three agents: two of priority 1, registered first, and one of priority 2.\<close>

definition agent_a :: Agent where
  "agent_a = \<lparr>AgentID = ''a'', AgentName = ''first'', AgentTenantID = ''t'', Priority = 1\<rparr>"

definition agent_b :: Agent where
  "agent_b = \<lparr>AgentID = ''b'', AgentName = ''second'', AgentTenantID = ''t'', Priority = 1\<rparr>"

definition agent_c :: Agent where
  "agent_c = \<lparr>AgentID = ''c'', AgentName = ''third'', AgentTenantID = ''t'', Priority = 2\<rparr>"

definition three_registrations :: "((Agent list \<Rightarrow> Agent list) \<times> request) list" where
  "three_registrations =
     [(in_map_order, Register agent_a), (in_map_order, Register agent_b),
      (in_map_order, Register agent_c)]"

section \<open>The attention update in the words of the specification\<close>








text \<open>The concept Cat with short-term importance -1, and with truth value (0.5, 0.5).\<close>

definition cold_Cat :: Atom where
  "cold_Cat = SetAttentionValue \<lparr>STI = - 1, LTI = 0, VLTI = 0\<rparr> Cat"

definition doubtful_Cat :: Atom where
  "doubtful_Cat = SetTruthValue \<lparr>Strength = 0.5, Confidence = 0.5\<rparr> cold_Cat"



section \<open>Routing\<close>

lemma getShardIDInternal_less:
  assumes "0 < n" "n < 2 ^ 63"
  shows "getShardIDInternal n atomID tenantID < n"
proof -
  have n64: "n < 2 ^ 64" using assms(2) by (simp add: order_less_trans)
  have un: "unat (of_nat n :: 64 word) = n"
    using n64 by (simp add: unat_of_nat)
  have "unat (fnv1a64 (tenantID @ '':'' @ atomID) mod of_nat n) < unat (of_nat n :: 64 word)"
    using assms(1) un by (simp add: unat_mod)
  then show ?thesis by (simp add: getShardIDInternal_def un)
qed

text \<open>
  The shards of the scenario's eight atoms under tenant \<open>demo\<close> and of Cat under
  tenant \<open>a\<close>, each computed from the definition. Evaluation looks them up instead of
  hashing again.
\<close>

lemma route_Cat: "getShardIDInternal 8 id_Cat ''demo'' = 4"
  by code_simp

lemma route_Mammal: "getShardIDInternal 8 id_Mammal ''demo'' = 7"
  by code_simp

lemma route_Animal: "getShardIDInternal 8 id_Animal ''demo'' = 3"
  by code_simp

lemma route_Cat_Mammal: "getShardIDInternal 8 id_Cat_Mammal ''demo'' = 6"
  by code_simp

lemma route_Mammal_Animal: "getShardIDInternal 8 id_Mammal_Animal ''demo'' = 3"
  by code_simp

lemma route_Cat_Animal: "getShardIDInternal 8 id_Cat_Animal ''demo'' = 6"
  by code_simp

lemma route_sim_Mammal_Cat: "getShardIDInternal 8 id_sim_Mammal_Cat ''demo'' = 0"
  by code_simp

lemma route_sim_Cat_Mammal: "getShardIDInternal 8 id_sim_Cat_Mammal ''demo'' = 7"
  by code_simp

lemma route_a_Cat: "getShardIDInternal 8 id_Cat ''a'' = 6"
  by code_simp

lemma route_demo [code]:
  "getShardIDInternal n atomID tenantID =
     (if n = 8 \<and> tenantID = ''demo'' \<and> atomID = id_Cat then 4
      else if n = 8 \<and> tenantID = ''demo'' \<and> atomID = id_Mammal then 7
      else if n = 8 \<and> tenantID = ''demo'' \<and> atomID = id_Animal then 3
      else if n = 8 \<and> tenantID = ''demo'' \<and> atomID = id_Cat_Mammal then 6
      else if n = 8 \<and> tenantID = ''demo'' \<and> atomID = id_Mammal_Animal then 3
      else if n = 8 \<and> tenantID = ''demo'' \<and> atomID = id_Cat_Animal then 6
      else if n = 8 \<and> tenantID = ''demo'' \<and> atomID = id_sim_Mammal_Cat then 0
      else if n = 8 \<and> tenantID = ''demo'' \<and> atomID = id_sim_Cat_Mammal then 7
      else if n = 8 \<and> tenantID = ''a'' \<and> atomID = id_Cat then 6
      else unat (fnv1a64 (tenantID @ '':'' @ atomID) mod of_nat n))"
  using route_Cat route_Mammal route_Animal route_Cat_Mammal route_Mammal_Animal
    route_Cat_Animal route_sim_Mammal_Cat route_sim_Cat_Mammal route_a_Cat
  by (auto simp: getShardIDInternal_def)

section \<open>The inference loop\<close>

lemma AddAtom_error_unchanged:
  "ShardManager_AddAtom atom sm = (Some e, sm') \<Longrightarrow> sm' = sm"
  by (auto simp: ShardManager_AddAtom_def addAtomInternal_def Let_def split: if_splits)

lemma reinsert_count:
  "reinsert (sm, acc, n) atom = (sm', acc', n') \<Longrightarrow>
     n \<le> n' \<and> (n' = n \<longrightarrow> sm' = sm \<and> acc' = acc)"
  by (auto simp: reinsert_def split: prod.splits option.splits dest: AddAtom_error_unchanged)

lemma foldl_reinsert_count:
  "foldl reinsert (sm, acc, n) xs = (sm', acc', n') \<Longrightarrow>
     n \<le> n' \<and> (n' = n \<longrightarrow> sm' = sm \<and> acc' = acc)"
proof (induction xs arbitrary: sm acc n)
  case Nil
  then show ?case by simp
next
  case (Cons x xs)
  obtain sm1 acc1 n1 where s: "reinsert (sm, acc, n) x = (sm1, acc1, n1)"
    by (cases "reinsert (sm, acc, n) x") auto
  from Cons.prems s have "foldl reinsert (sm1, acc1, n1) xs = (sm', acc', n')" by simp
  from Cons.IH [OF this] reinsert_count [OF s] show ?case by auto
qed

lemma foldl_collect_count:
  "foldl collect (sm, acc, n) rs = (sm', acc', n') \<Longrightarrow>
     n \<le> n' \<and> (n' = n \<longrightarrow> sm' = sm \<and> acc' = acc)"
proof (induction rs arbitrary: sm acc n)
  case Nil
  then show ?case by simp
next
  case (Cons r rs)
  obtain sm1 acc1 n1 where s: "collect (sm, acc, n) r = (sm1, acc1, n1)"
    by (cases "collect (sm, acc, n) r") auto
  then have c: "n \<le> n1 \<and> (n1 = n \<longrightarrow> sm1 = sm \<and> acc1 = acc)"
    by (cases r) (auto simp: collect_def dest: foldl_reinsert_count)
  from Cons.prems s have "foldl collect (sm1, acc1, n1) rs = (sm', acc', n')" by simp
  from Cons.IH [OF this] c show ?case by auto
qed

text \<open>The accumulated list and the counter do not influence what is reinserted.\<close>

lemma reinsert_shift:
  "reinsert (sm, acc, n) atom =
     (case reinsert (sm, [], 0) atom of (sm', new, k) \<Rightarrow> (sm', acc @ new, n + k))"
  by (auto simp: reinsert_def split: prod.splits option.splits)

lemma foldl_reinsert_shift:
  "foldl reinsert (sm, acc, n) xs =
     (case foldl reinsert (sm, [], 0) xs of (sm', new, k) \<Rightarrow> (sm', acc @ new, n + k))"
proof (induction xs arbitrary: sm acc n)
  case Nil
  then show ?case by simp
next
  case (Cons x xs)
  obtain sm1 new1 k1 where s: "reinsert (sm, [], 0) x = (sm1, new1, k1)"
    by (cases "reinsert (sm, [], 0) x") auto
  have s': "reinsert (sm, acc, n) x = (sm1, acc @ new1, n + k1)"
    using s by (subst reinsert_shift) simp
  show ?case
    apply (simp add: s s')
    apply (subst Cons.IH [of sm1 "acc @ new1" "n + k1"])
    apply (subst Cons.IH [of sm1 new1 k1])
    apply (simp split: prod.splits)
    done
qed

lemma foldl_collect_shift:
  "foldl collect (sm, acc, n) rs =
     (case foldl collect (sm, [], 0) rs of (sm', new, k) \<Rightarrow> (sm', acc @ new, n + k))"
proof (induction rs arbitrary: sm acc n)
  case Nil
  then show ?case by simp
next
  case (Cons r rs)
  obtain sm1 new1 k1 where s: "collect (sm, [], 0) r = (sm1, new1, k1)"
    by (cases "collect (sm, [], 0) r") auto
  have s': "collect (sm, acc, n) r = (sm1, acc @ new1, n + k1)"
  proof (cases r)
    case (Inl e)
    then show ?thesis using s by (simp add: collect_def)
  next
    case (Inr xs)
    then show ?thesis using s foldl_reinsert_shift [of sm acc n xs] by (simp add: collect_def)
  qed
  show ?case
    apply (simp add: s s')
    apply (subst Cons.IH [of sm1 "acc @ new1" "n + k1"])
    apply (subst Cons.IH [of sm1 new1 k1])
    apply (simp split: prod.splits)
    done
qed



lemma loop_iterations_le:
  "run_iterations (RunInference_loop order cancelled rules tenantID maxIterations iteration sm acc)
     \<le> max iteration (nat maxIterations)"
proof (induction order cancelled rules tenantID maxIterations iteration sm acc
        rule: RunInference_loop.induct)
  case (1 order cancelled rules tenantID maxIterations iteration sm acc)
  show ?case
    apply (subst RunInference_loop.simps)
    using "1.IH"
    apply (auto simp: Let_def split: prod.splits)
    done
qed

lemma loop_fixpoint_quiet:
  "run_fixpoint (RunInference_loop order cancelled rules tenantID maxIterations iteration sm acc) \<Longrightarrow>
   \<exists>k. run_iterations
          (RunInference_loop order cancelled rules tenantID maxIterations iteration sm acc) = Suc k \<and>
       quiet rules
         (order k (ShardManager_QueryAtoms tenantID None
            (run_store (RunInference_loop order cancelled rules tenantID maxIterations iteration sm acc))))
         (run_store (RunInference_loop order cancelled rules tenantID maxIterations iteration sm acc))"
proof (induction order cancelled rules tenantID maxIterations iteration sm acc
        rule: RunInference_loop.induct)
  case (1 order cancelled rules tenantID maxIterations iteration sm acc)
  let ?snap = "order iteration (ShardManager_QueryAtoms tenantID None sm)"
  let ?rs = "rule_results rules ?snap"
  let ?L = "RunInference_loop order cancelled rules tenantID maxIterations iteration sm acc"
  obtain sm' acc' n where res: "foldl collect (sm, acc, 0) ?rs = (sm', acc', n)"
    by (cases "foldl collect (sm, acc, 0) ?rs") auto
  have body: "int iteration < maxIterations \<and> \<not> cancelled iteration \<and> ?snap \<noteq> [] \<and> ?rs \<noteq> []"
    using "1.prems"
    by (subst (asm) RunInference_loop.simps)
       (auto simp: Let_def rule_results_def split: if_splits)
  show ?case
  proof (cases "n = 0")
    case True
    then have same: "sm' = sm" "acc' = acc"
      using foldl_collect_count [OF res] by simp_all
    have L: "?L = \<lparr>run_atoms = acc, run_err = None, run_store = sm,
                  run_iterations = iteration + 1, run_fixpoint = True\<rparr>"
      using body res True same
      by (subst RunInference_loop.simps) (simp add: Let_def rule_results_def)
    obtain sm0 new0 k0 where z: "foldl collect (sm, [], 0) ?rs = (sm0, new0, k0)"
      by (cases "foldl collect (sm, [], 0) ?rs") auto
    have "(sm', acc', n) = (sm0, acc @ new0, 0 + k0)"
      using res z foldl_collect_shift [of sm acc 0 ?rs] by simp
    then have "k0 = 0" "sm0 = sm" "new0 = []"
      using True same by simp_all
    then have "quiet rules ?snap sm"
      using body z by (simp add: quiet_def)
    then show ?thesis using L by simp
  next
    case False
    have L: "?L = RunInference_loop order cancelled rules tenantID maxIterations
                    (iteration + 1) sm' acc'"
      using body res False
      by (subst RunInference_loop.simps) (simp add: Let_def rule_results_def)
    have "run_fixpoint (RunInference_loop order cancelled rules tenantID maxIterations
                    (iteration + 1) sm' acc')"
      using "1.prems" L by simp
    then have "\<exists>k. run_iterations (RunInference_loop order cancelled rules tenantID maxIterations
                    (iteration + 1) sm' acc') = Suc k \<and>
       quiet rules
         (order k (ShardManager_QueryAtoms tenantID None
            (run_store (RunInference_loop order cancelled rules tenantID maxIterations
                    (iteration + 1) sm' acc'))))
         (run_store (RunInference_loop order cancelled rules tenantID maxIterations
                    (iteration + 1) sm' acc'))"
      using body res False
      by (intro "1.IH" [of ?snap "filter (\<lambda>rule. CanApply rule ?snap) rules" sm' "(acc', n)" acc' n])
         (simp_all add: rule_results_def)
    then show ?thesis using L by simp
  qed
qed

lemma quiet_run:
  assumes "quiet rules (order 0 (ShardManager_QueryAtoms tenantID None sm)) sm"
    and "0 < maxIterations" and "\<not> cancelled 0"
  shows "RunInference_loop order cancelled rules tenantID maxIterations 0 sm [] =
           \<lparr>run_atoms = [], run_err = None, run_store = sm,
            run_iterations = 1, run_fixpoint = True\<rparr>"
  using assms
  by (subst RunInference_loop.simps) (simp add: quiet_def rule_results_def Let_def)

section \<open>C1: transitive deduction, end to end\<close>

subsection \<open>The rules under a change of enumeration order\<close>







subsection \<open>The scenario's stores, rule results and reinsertions\<close>














subsection \<open>The run, pass by pass, in any enumeration order\<close>










subsection \<open>The claim\<close>




section \<open>C10: what UpdateAtom leaves alone\<close>




section \<open>C2: what the deduction rule emits\<close>









section \<open>C3: truth values outside [0,1] are stored\<close>

text \<open>
  C3 says that a truth value outside [0,1] is rejected and so never stored, and the
  field comments of \<open>TruthValue\<close> give both fields the range [0, 1]. The code makes no
  such check: an atom with truth value (2, 2) is added without error, and
  \<open>SetTruthValue\<close> puts (2, -1) on the stored concept Cat.
\<close>

theorem out_of_range_truth_value_stored:
  "fst (addAtomInternal
         (SetTruthValue \<lparr>Strength = 2, Confidence = 2\<rparr>
            (NewNode id_Cat ''Cat'' ''a'' ConceptNodeType)) NewAtomSpace) = None \<and>
   map (\<lambda>(key, atom). GetTruthValue atom)
     (atoms (apply_ops NewAtomSpace
        [OpAddAtom (NewNode id_Cat ''Cat'' ''a'' ConceptNodeType),
         OpSetTruthValue id_Cat \<lparr>Strength = 2, Confidence = - 1\<rparr>]))
     = [\<lparr>Strength = 2, Confidence = - 1\<rparr>] \<and>
   \<not> all_in_range (apply_ops NewAtomSpace
        [OpAddAtom (NewNode id_Cat ''Cat'' ''a'' ConceptNodeType),
         OpSetTruthValue id_Cat \<lparr>Strength = 2, Confidence = - 1\<rparr>])"
  by code_simp

section \<open>C4: reading an atom with another tenant's id\<close>

text \<open>
  C4, as claimed, says that \<open>GetAtom\<close> with a foreign tenant always fails with
  TenantMismatch. Counterexample: the concept Cat is stored under tenant \<open>a\<close> (shard 6);
  the request for the same id with tenant \<open>b\<close> is routed to shard 1, which holds nothing
  under that id, and fails with NotFound.
\<close>

theorem cross_tenant_NotFound_counterexample:
  "stored_under tenant_a_store (NewNode id_Cat ''Cat'' ''a'' ConceptNodeType) ''a'' \<and>
   ShardManager_GetAtom id_Cat ''b'' tenant_a_store = Inl (NotFound id_Cat)"
  by code_simp

text \<open>
  C4, amended: for an atom \<open>a\<close> stored under tenant \<open>t\<close> and a tenant \<open>t' \<noteq> t\<close>,
  \<open>GetAtom (id a) t'\<close> through the shard manager never returns \<open>a\<close>, and whatever it
  returns belongs to \<open>t'\<close>. It fails with TenantMismatch when \<open>(id a, t')\<close> is routed to
  the shard that holds \<open>a\<close>, and with NotFound when it is routed to a shard that holds
  nothing under that id.
\<close>

theorem cross_tenant_get_never_returns_atom:
  assumes "stored_under sm a t" and "t' \<noteq> t"
  shows "ShardManager_GetAtom (GetID a) t' sm \<noteq> Inr a \<and>
         (\<forall>b. ShardManager_GetAtom (GetID a) t' sm = Inr b \<longrightarrow> GetTenantID b = t') \<and>
         (getShardIDInternal (numShards sm) (GetID a) t' =
            getShardIDInternal (numShards sm) (GetID a) t \<longrightarrow>
            ShardManager_GetAtom (GetID a) t' sm = Inl (TenantMismatch t')) \<and>
         (map_of (atoms (Space (GetShard (GetID a) t' sm))) (GetID a) = None \<longrightarrow>
            ShardManager_GetAtom (GetID a) t' sm = Inl (NotFound (GetID a)))"
  using assms
  by (auto simp: stored_under_def ShardManager_GetAtom_def AtomSpace_GetAtom_def GetShard_def
           split: option.splits if_splits)

text \<open>C4, amended, at the store of the counterexample: tenant \<open>b\<close> asks for Cat of tenant \<open>a\<close>.\<close>

theorem cross_tenant_get_never_returns_atom_witness:
  "stored_under tenant_a_store (NewNode id_Cat ''Cat'' ''a'' ConceptNodeType) ''a'' \<and>
   ''b'' \<noteq> ''a'' \<and>
   ShardManager_GetAtom id_Cat ''b'' tenant_a_store
     \<noteq> Inr (NewNode id_Cat ''Cat'' ''a'' ConceptNodeType) \<and>
   ShardManager_GetAtom id_Cat ''b'' tenant_a_store = Inl (NotFound id_Cat)"
proof -
  have s: "stored_under tenant_a_store (NewNode id_Cat ''Cat'' ''a'' ConceptNodeType) ''a''"
    by code_simp
  have n: "''b'' \<noteq> ''a''" by simp
  have i: "GetID (NewNode id_Cat ''Cat'' ''a'' ConceptNodeType) = id_Cat"
    by (simp add: GetID_def NewNode_def NewBase_def)
  have e: "map_of (atoms (Space (GetShard id_Cat ''b'' tenant_a_store))) id_Cat = None"
    by code_simp
  show ?thesis
    using s n e cross_tenant_get_never_returns_atom [OF s n] by (simp add: i)
qed

section \<open>C5: shard index of equal ids under different tenants\<close>

text \<open>
  C5, as claimed, says that two distinct tenants never share the shard of an atom id.
  Counterexample: with the default eight shards, tenants \<open>a\<close> and \<open>i\<close> both route the id
  of the concept Cat to shard 6.
\<close>

theorem same_shard_counterexample:
  "''a'' \<noteq> ''i'' \<and> getShardIDInternal 8 id_Cat ''a'' = getShardIDInternal 8 id_Cat ''i''"
  by code_simp

text \<open>
  C5, amended: the shard index \<open>fnv1a64 (tenant \<parallel> ":" \<parallel> id) mod N\<close> lies below \<open>N\<close>;
  it depends on the tenant (with eight shards the id of Cat goes to shard 6 for tenant
  \<open>a\<close> and to shard 1 for tenant \<open>b\<close>), but different tenants need not get different
  shards: among any more than \<open>N\<close> tenants two route a given atom id to the same shard.
\<close>

theorem shard_index_range_and_collisions:
  assumes "0 < n" "n < 2 ^ 63"
  shows "getShardIDInternal n atomID tenantID < n \<and>
         getShardIDInternal n atomID tenantID
           = unat (fnv1a64 (tenantID @ '':'' @ atomID)) mod n \<and>
         getShardIDInternal 8 id_Cat ''a'' = 6 \<and> getShardIDInternal 8 id_Cat ''b'' = 1 \<and>
         (finite T \<and> n < card T \<longrightarrow>
           (\<exists>t \<in> T. \<exists>t' \<in> T. t \<noteq> t' \<and>
              getShardIDInternal n atomID t = getShardIDInternal n atomID t'))"
proof (intro conjI impI)
  show "getShardIDInternal n atomID tenantID < n"
    by (rule getShardIDInternal_less [OF assms])
next
  have "n < 2 ^ LENGTH(64)" using assms(2) by simp
  then show "getShardIDInternal n atomID tenantID
               = unat (fnv1a64 (tenantID @ '':'' @ atomID)) mod n"
    by (simp add: getShardIDInternal_def unat_mod unat_of_nat)
next
  show "getShardIDInternal 8 id_Cat ''a'' = 6" by code_simp
next
  show "getShardIDInternal 8 id_Cat ''b'' = 1" by code_simp
next
  assume T: "finite T \<and> n < card T"
  let ?f = "getShardIDInternal n atomID"
  have "?f ` T \<subseteq> {..<n}"
    using getShardIDInternal_less [OF assms] by auto
  then have "card (?f ` T) \<le> n"
    using card_mono [of "{..<n}" "?f ` T"] by simp
  then have "card (?f ` T) < card T" using T by simp
  then have "\<not> inj_on ?f T" by (rule pigeonhole)
  then show "\<exists>t \<in> T. \<exists>t' \<in> T. t \<noteq> t' \<and> ?f t = ?f t'"
    by (auto simp: inj_on_def)
qed

text \<open>C5, amended, for eight shards, the id of Cat and the nine tenants \<open>a\<close> to \<open>i\<close>.\<close>

theorem shard_index_range_and_collisions_witness:
  "(0::nat) < 8 \<and> (8::nat) < 2 ^ 63 \<and> getShardIDInternal 8 id_Cat ''a'' < 8 \<and>
   getShardIDInternal 8 id_Cat ''a'' \<noteq> getShardIDInternal 8 id_Cat ''b'' \<and>
   finite {''a'', ''b'', ''c'', ''d'', ''e'', ''f'', ''g'', ''h'', ''i''} \<and>
   8 < card {''a'', ''b'', ''c'', ''d'', ''e'', ''f'', ''g'', ''h'', ''i''} \<and>
   (\<exists>t \<in> {''a'', ''b'', ''c'', ''d'', ''e'', ''f'', ''g'', ''h'', ''i''}.
    \<exists>t' \<in> {''a'', ''b'', ''c'', ''d'', ''e'', ''f'', ''g'', ''h'', ''i''}. t \<noteq> t' \<and>
       getShardIDInternal 8 id_Cat t = getShardIDInternal 8 id_Cat t')"
proof -
  have h: "(0::nat) < 8" "(8::nat) < 2 ^ 63" by simp_all
  have c: "finite {''a'', ''b'', ''c'', ''d'', ''e'', ''f'', ''g'', ''h'', ''i''} \<and>
           8 < card {''a'', ''b'', ''c'', ''d'', ''e'', ''f'', ''g'', ''h'', ''i''}"
    by simp
  note t = shard_index_range_and_collisions [OF h, of id_Cat "''a''"
        "{''a'', ''b'', ''c'', ''d'', ''e'', ''f'', ''g'', ''h'', ''i''}"]
  have r: "getShardIDInternal 8 id_Cat ''a'' \<noteq> getShardIDInternal 8 id_Cat ''b''"
    using t by simp
  show ?thesis
    using h c t r by blast
qed

section \<open>C6: running inference again at the fixpoint\<close>

text \<open>
  C6 says that once a run has ended at the fixpoint, the next run returns nothing, and
  the loop leaves with the comment that the fixpoint is reached. The code does not keep
  this: on the scenario's store the first run ends at the fixpoint with the similarity
  link of (Mammal, Cat) stored. The next run happens to list the
  atoms in the opposite order; the induction rule then pairs the same two links the other
  way round and emits the similarity link of (Cat, Mammal), whose id is new.
\<close>

theorem rerun_other_order_new_atom:
  "enumeration canonical \<and> enumeration reversed \<and>
   run_fixpoint (RunInference_loop canonical never (default_rules sha256_demo) ''demo'' 5 0
                   demo_store []) \<and>
   run_store (RunInference_loop canonical never (default_rules sha256_demo) ''demo'' 5 0
                demo_store []) = demo_closed \<and>
   fst (RunInference reversed never (default_rules sha256_demo) ''demo'' 5 demo_closed)
     = ([sim_Cat_Mammal], None)"
proof -
  have "enumeration canonical" "enumeration reversed"
    by (simp_all add: enumeration_def canonical_def reversed_def)
  moreover have "run_fixpoint (RunInference_loop canonical never (default_rules sha256_demo)
                    ''demo'' 5 0 demo_store [])"
    by code_simp
  moreover have "run_store (RunInference_loop canonical never (default_rules sha256_demo)
                    ''demo'' 5 0 demo_store []) = demo_closed"
    by code_simp
  moreover have "fst (RunInference reversed never (default_rules sha256_demo) ''demo'' 5
                        demo_closed) = ([sim_Cat_Mammal], None)"
    by code_simp
  ultimately show ?thesis by blast
qed

section \<open>C7: the order in which agents are dispatched\<close>

lemma length_swap [simp]: "length (swap i j xs) = length xs"
  by (simp add: swap_def)

lemma mset_swap_list:
  "i < length xs \<Longrightarrow> j < length xs \<Longrightarrow> mset (swap i j xs) = mset xs"
  unfolding swap_def by (rule mset_swap)

lemma take_swap:
  "i \<le> a \<Longrightarrow> i \<le> b \<Longrightarrow> take i (swap a b xs) = take i xs"
  by (simp add: swap_def)

lemma nth_swap:
  "a < length xs \<Longrightarrow> b < length xs \<Longrightarrow>
   swap a b xs ! m = (if m = b then xs ! a else if m = a then xs ! b else xs ! m)"
  by (simp add: swap_def nth_list_update)

text \<open>The inner loop up to position \<open>k\<close>.\<close>

lemma sort_inner_upto:
  assumes "i < length p" and "i < k" and "k \<le> length p"
  defines "q \<equiv> foldl (\<lambda>p j. if Priority (p ! i) < Priority (p ! j) then swap i j p else p)
                  p [i + 1..<k]"
  shows "length q = length p \<and> mset q = mset p \<and> take i q = take i p \<and>
         (\<forall>m. i < m \<and> m < k \<longrightarrow> Priority (q ! m) \<le> Priority (q ! i))"
  using assms(2,3) unfolding q_def
proof (induction k)
  case 0
  then show ?case by simp
next
  case (Suc k)
  show ?case
  proof (cases "i < k")
    case False
    then have "k = i" using Suc.prems by simp
    then show ?thesis by simp
  next
    case True
    let ?q = "foldl (\<lambda>p j. if Priority (p ! i) < Priority (p ! j) then swap i j p else p)
                p [i + 1..<k]"
    have IH: "length ?q = length p" "mset ?q = mset p" "take i ?q = take i p"
      "\<forall>m. i < m \<and> m < k \<longrightarrow> Priority (?q ! m) \<le> Priority (?q ! i)"
      using Suc.IH [OF True] Suc.prems by simp_all
    have k: "k < length ?q" "i < length ?q"
      using Suc.prems assms(1) IH(1) by simp_all
    have unfold: "foldl (\<lambda>p j. if Priority (p ! i) < Priority (p ! j) then swap i j p else p)
                    p [i + 1..<Suc k]
                  = (if Priority (?q ! i) < Priority (?q ! k) then swap i k ?q else ?q)"
      using True by simp
    show ?thesis
    proof (cases "Priority (?q ! i) < Priority (?q ! k)")
      case False
      have "\<forall>m. i < m \<and> m < Suc k \<longrightarrow> Priority (?q ! m) \<le> Priority (?q ! i)"
        using IH(4) False by (auto simp: less_Suc_eq)
      then show ?thesis unfolding unfold using False IH by simp
    next
      case sw: True
      have "\<forall>m. i < m \<and> m < Suc k \<longrightarrow>
              Priority (swap i k ?q ! m) \<le> Priority (swap i k ?q ! i)"
        using IH(4) sw k True by (auto simp: nth_swap less_Suc_eq)
      then show ?thesis
        unfolding unfold using sw IH k True by (simp add: mset_swap_list take_swap)
    qed
  qed
qed

lemma sort_inner_post:
  assumes "i < length p"
  shows "length (sort_inner i p) = length p \<and> mset (sort_inner i p) = mset p \<and>
         take i (sort_inner i p) = take i p \<and>
         (\<forall>m. i < m \<and> m < length p \<longrightarrow>
            Priority (sort_inner i p ! m) \<le> Priority (sort_inner i p ! i))"
  using sort_inner_upto [OF assms, of "length p"] assms
  by (simp add: sort_inner_def)

text \<open>
  What the outer loop has established after position \<open>k\<close>: every position below \<open>k\<close>
  holds a priority at least as high as every later position.
\<close>

lemma sort_outer_upto:
  assumes "k \<le> length p"
  defines "q \<equiv> foldl (\<lambda>p i. sort_inner i p) p [0..<k]"
  shows "length q = length p \<and> mset q = mset p \<and>
         (\<forall>a b. a < k \<and> a < b \<and> b < length p \<longrightarrow> Priority (q ! b) \<le> Priority (q ! a))"
  using assms(1) unfolding q_def
proof (induction k)
  case 0
  then show ?case by simp
next
  case (Suc k)
  let ?q = "foldl (\<lambda>p i. sort_inner i p) p [0..<k]"
  let ?r = "sort_inner k ?q"
  have IH: "length ?q = length p" "mset ?q = mset p"
    "\<forall>a b. a < k \<and> a < b \<and> b < length p \<longrightarrow> Priority (?q ! b) \<le> Priority (?q ! a)"
    using Suc.IH Suc.prems by simp_all
  have kq: "k < length ?q" using Suc.prems IH(1) by simp
  have post: "length ?r = length ?q" "mset ?r = mset ?q" "take k ?r = take k ?q"
    "\<forall>m. k < m \<and> m < length ?q \<longrightarrow> Priority (?r ! m) \<le> Priority (?r ! k)"
    using sort_inner_post [OF kq] by simp_all
  have low: "?r ! a = ?q ! a" if "a < k" for a
    using that post(3) by (metis nth_take)
  have "mset (take k ?r) + mset (drop k ?r) = mset (take k ?q) + mset (drop k ?q)"
    using post(2) by (metis append_take_drop_id mset_append)
  then have "mset (drop k ?r) = mset (drop k ?q)"
    using post(3) by simp
  then have sets: "set (drop k ?r) = set (drop k ?q)"
    by (rule mset_eq_setD)
  have high: "\<exists>b'. k \<le> b' \<and> b' < length p \<and> ?r ! b = ?q ! b'" if "k \<le> b" "b < length p" for b
  proof -
    have "?r ! b \<in> set (drop k ?r)"
      using that post(1) IH(1) by (auto simp: in_set_conv_nth intro!: exI [of _ "b - k"])
    then have "?r ! b \<in> set (drop k ?q)" using sets by simp
    then obtain n where "n < length (drop k ?q)" "drop k ?q ! n = ?r ! b"
      by (auto simp: in_set_conv_nth)
    then show ?thesis
      using IH(1) by (intro exI [of _ "k + n"]) auto
  qed
  have "Priority (?r ! b) \<le> Priority (?r ! a)" if "a < Suc k" "a < b" "b < length p" for a b
  proof (cases "a = k")
    case True
    then show ?thesis using post(4) that IH(1) by simp
  next
    case False
    then have ak: "a < k" using that by simp
    show ?thesis
    proof (cases "b < k")
      case True
      then show ?thesis using IH(3) ak that low by simp
    next
      case False
      then have "k \<le> b" by simp
      from high [OF this that(3)]
      obtain b' where "k \<le> b'" "b' < length p" "?r ! b = ?q ! b'" by blast
      then show ?thesis using IH(3) ak low [OF ak] by simp
    qed
  qed
  then show ?case using post IH by simp
qed

lemma sort_priority_sorted:
  "sorted_wrt (\<lambda>a b. Priority b \<le> Priority a) (sort_priority p) \<and>
   mset (sort_priority p) = mset p"
  using sort_outer_upto [of "length p" p]
  by (simp add: sort_priority_def sorted_wrt_iff_nth_less)

lemma rebuildPriorityQueue_sorted:
  assumes "agent_enumeration order"
  shows "sorted_wrt (\<lambda>a b. Priority b \<le> Priority a) (priority (rebuildPriorityQueue order as)) \<and>
         mset (priority (rebuildPriorityQueue order as))
           = mset (map snd (agents (rebuildPriorityQueue order as)))"
  using assms sort_priority_sorted [of "order (map snd (agents as))"]
  by (simp add: rebuildPriorityQueue_def agent_enumeration_def)

lemma manage_sorted:
  assumes "list_all (\<lambda>(order, r). agent_enumeration order) reqs"
    and "sorted_wrt (\<lambda>a b. Priority b \<le> Priority a) (priority as) \<and>
         mset (priority as) = mset (map snd (agents as))"
  shows "sorted_wrt (\<lambda>a b. Priority b \<le> Priority a) (priority (manage as reqs)) \<and>
         mset (priority (manage as reqs)) = mset (map snd (agents (manage as reqs)))"
  using assms
proof (induction as reqs rule: manage.induct)
  case (1 as)
  then show ?case by simp
next
  case (2 as order agent rs)
  then show ?case
    by (simp add: registerInternal_def rebuildPriorityQueue_sorted)
next
  case (3 as order agentID rs)
  then show ?case
    by (simp add: unregisterInternal_def rebuildPriorityQueue_sorted)
qed

text \<open>
  C7, as claimed, says that agents of equal priority are dispatched in the order of their
  registration. Counterexample: \<open>a\<close> and \<open>b\<close>, both of priority 1, are registered in
  this order, then \<open>c\<close> of priority 2; the map is ranged over in insertion order. The
  first pass of the sort exchanges \<open>a\<close> with \<open>c\<close>, and the dispatch order is \<open>c, b, a\<close>.
\<close>

theorem equal_priority_order_counterexample:
  "Priority agent_a = Priority agent_b \<and>
   map AgentID (scheduleAgents (manage NewAgentScheduler three_registrations))
     = [''c'', ''b'', ''a'']"
  by code_simp

text \<open>
  C7, amended: whatever order the map of agents is ranged over, after any sequence of
  registrations and unregistrations the list dispatched on a tick is sorted by priority,
  higher priority first, and holds exactly the registered agents. The order among agents
  of equal priority is not fixed by the order of registration.
\<close>

theorem dispatch_sorted_by_priority:
  assumes "list_all (\<lambda>(order, r). agent_enumeration order) reqs"
  shows "sorted_wrt (\<lambda>a b. Priority b \<le> Priority a)
           (scheduleAgents (manage NewAgentScheduler reqs)) \<and>
         mset (scheduleAgents (manage NewAgentScheduler reqs))
           = mset (map snd (agents (manage NewAgentScheduler reqs)))"
  using manage_sorted [OF assms, of NewAgentScheduler]
  by (simp add: scheduleAgents_def NewAgentScheduler_def)

text \<open>C7, amended, for the three registrations of the counterexample.\<close>

theorem dispatch_sorted_by_priority_witness:
  "list_all (\<lambda>(order, r). agent_enumeration order) three_registrations \<and>
   scheduleAgents (manage NewAgentScheduler three_registrations) = [agent_c, agent_b, agent_a] \<and>
   sorted_wrt (\<lambda>a b. Priority b \<le> Priority a)
     (scheduleAgents (manage NewAgentScheduler three_registrations))"
proof -
  have e: "list_all (\<lambda>(order, r). agent_enumeration order) three_registrations"
    by (simp add: three_registrations_def agent_enumeration_def in_map_order_def)
  have v: "scheduleAgents (manage NewAgentScheduler three_registrations)
             = [agent_c, agent_b, agent_a]"
    by code_simp
  show ?thesis
    using e v dispatch_sorted_by_priority [OF e] by simp
qed

section \<open>C8: the iteration cap and the boundary cases\<close>

text \<open>
  C8, as claimed, says that on a tenant without atoms the run returns no error.
  Counterexample: the tenant is empty, the cap is 5 and the context is already
  cancelled; the first iteration returns the context's error.
\<close>

theorem empty_tenant_cancelled_counterexample:
  "ShardManager_QueryAtoms ''demo'' None (NewShardManager 8) = [] \<and>
   RunInference canonical always (default_rules sha256_demo) ''demo'' 5 (NewShardManager 8)
     = (([], Some Cancelled), NewShardManager 8)"
  by code_simp

text \<open>
  C8, amended: \<open>RunInference\<close> enters its loop body at most \<open>max_iterations\<close> times
  (never, when the cap is not positive). With cap 0 it returns at once: no new atom, no
  error, the store untouched. On a tenant without atoms it returns in its first
  iteration with no new atom and the store untouched; the error is the context's when
  the cap is positive and the context is already cancelled, and none otherwise.
\<close>

theorem RunInference_bounded:
  "int (run_iterations (RunInference_loop order cancelled rules tenantID maxIterations 0 sm []))
     \<le> max 0 maxIterations \<and>
   (maxIterations = 0 \<longrightarrow>
      RunInference order cancelled rules tenantID maxIterations sm = (([], None), sm)) \<and>
   (enumeration order \<and> ShardManager_QueryAtoms tenantID None sm = [] \<longrightarrow>
      RunInference order cancelled rules tenantID maxIterations sm =
        (([], if 0 < maxIterations \<and> cancelled 0 then Some Cancelled else None), sm) \<and>
      run_iterations (RunInference_loop order cancelled rules tenantID maxIterations 0 sm []) \<le> 1)"
proof (intro conjI impI)
  show "int (run_iterations (RunInference_loop order cancelled rules tenantID maxIterations 0 sm []))
          \<le> max 0 maxIterations"
    using loop_iterations_le [of order cancelled rules tenantID maxIterations 0 sm "[]"]
    by simp
next
  assume "maxIterations = 0"
  then show "RunInference order cancelled rules tenantID maxIterations sm = (([], None), sm)"
    by (simp add: RunInference_def RunInference_loop.simps [of _ _ _ _ _ 0])
next
  assume e: "enumeration order \<and> ShardManager_QueryAtoms tenantID None sm = []"
  then have "order 0 (ShardManager_QueryAtoms tenantID None sm) = []"
    by (metis enumeration_def mset_zero_iff)
  then show "RunInference order cancelled rules tenantID maxIterations sm =
        (([], if 0 < maxIterations \<and> cancelled 0 then Some Cancelled else None), sm)"
    and "run_iterations (RunInference_loop order cancelled rules tenantID maxIterations 0 sm []) \<le> 1"
    by (simp_all add: RunInference_def RunInference_loop.simps [of _ _ _ _ _ 0])
qed

text \<open>
  C8, amended, at two inputs: cap 0 on the scenario's store, and cap 5 on a tenant
  without atoms with a live context.
\<close>

theorem RunInference_bounded_witness:
  "RunInference canonical never (default_rules sha256_demo) ''demo'' 0 demo_store
     = (([], None), demo_store) \<and>
   enumeration canonical \<and>
   ShardManager_QueryAtoms ''demo'' None (NewShardManager 8) = [] \<and>
   RunInference canonical never (default_rules sha256_demo) ''demo'' 5 (NewShardManager 8)
     = (([], None), NewShardManager 8)"
proof -
  have e: "enumeration canonical" by (simp add: enumeration_def canonical_def)
  have q: "ShardManager_QueryAtoms ''demo'' None (NewShardManager 8) = []" by code_simp
  have n: "\<not> never 0" by (simp add: never_def)
  show ?thesis
    using e q n
      RunInference_bounded [of canonical never "default_rules sha256_demo" "''demo''" 0 demo_store]
      RunInference_bounded [of canonical never "default_rules sha256_demo" "''demo''" 5
         "NewShardManager 8"]
    by simp
qed

section \<open>C9: the attention agent's update\<close>




















end
